theory Spec2Isabelle
  imports Main "HOL-Library.Sublist" "HOL-Library.Word"
begin

section \<open>Python text and the built-ins the server uses\<close>

text \<open>
  A Python \<open>str\<close> is a sequence of Unicode code points, so text is a list of natural
  numbers. Literals of the source are written as Isabelle strings and mapped to their code
  points; the few non-ASCII characters of the source's templates are written as numbers.
\<close>

type_synonym ustr = "nat list"

abbreviation (input) U :: "string \<Rightarrow> ustr" where
  "U s \<equiv> map of_char s"

text \<open>
  The exceptions that can be raised inside the handler's \<open>try\<close> block.
  \<open>Exception msg\<close> stands for an instance \<open>e\<close> of any subclass of Python's
  \<open>Exception\<close> with \<open>str(e) = msg\<close>; the two others are raised by built-ins, with the
  message CPython gives them.
\<close>

datatype exn = ValueError | IndexError | Exception ustr

fun str_exn :: "exn \<Rightarrow> ustr" where
  "str_exn ValueError = U ''empty separator''"
| "str_exn IndexError = U ''list index out of range''"
| "str_exn (Exception msg) = msg"

text \<open>\<open>str.strip()\<close> removes the characters for which CPython's \<open>Py_UNICODE_ISSPACE\<close> holds.\<close>

definition isspace :: "nat \<Rightarrow> bool" where
  "isspace c \<longleftrightarrow>
     (0x09 \<le> c \<and> c \<le> 0x0D) \<or> (0x1C \<le> c \<and> c \<le> 0x20) \<or> c = 0x85 \<or> c = 0xA0 \<or>
     c = 0x1680 \<or> (0x2000 \<le> c \<and> c \<le> 0x200A) \<or> c = 0x2028 \<or> c = 0x2029 \<or>
     c = 0x202F \<or> c = 0x205F \<or> c = 0x3000"

definition py_strip :: "ustr \<Rightarrow> ustr" where
  "py_strip s = rev (dropWhile isspace (rev (dropWhile isspace s)))"

text \<open>
  \<open>str.lower()\<close>: CPython maps the code point at each index through \<open>lower_ucs4\<close>, which
  may yield up to three code points and looks at the neighbours for a capital sigma. On
  ASCII the mapping is fixed; above ASCII it reads the Unicode database, which is not part
  of the repository and is the parameter \<open>db\<close>: \<open>db s i\<close> is the lower-case mapping of the
  code point at index \<open>i\<close> of \<open>s\<close>.
\<close>

type_synonym unicode_db = "ustr \<Rightarrow> nat \<Rightarrow> ustr"

definition ascii_lower :: "nat \<Rightarrow> nat" where
  "ascii_lower c = (if 0x41 \<le> c \<and> c \<le> 0x5A then c + 0x20 else c)"

definition lower_ucs4 :: "unicode_db \<Rightarrow> ustr \<Rightarrow> nat \<Rightarrow> ustr" where
  "lower_ucs4 db s i = (if s ! i < 0x80 then [ascii_lower (s ! i)] else db s i)"

definition py_lower :: "unicode_db \<Rightarrow> ustr \<Rightarrow> ustr" where
  "py_lower db s = concat (map (lower_ucs4 db s) [0..<length s])"

text \<open>\<open>s.startswith(p)\<close> is \<^const>\<open>prefix\<close>; \<open>sub in s\<close> is a search for a position where \<open>sub\<close> starts.\<close>

fun py_in :: "ustr \<Rightarrow> ustr \<Rightarrow> bool" where
  "py_in sub [] = (sub = [])"
| "py_in sub (c # cs) = (prefix sub (c # cs) \<or> py_in sub cs)"

text \<open>
  \<open>py_partition sep s\<close> finds the leftmost occurrence of a non-empty \<open>sep\<close> in \<open>s\<close>, as
  \<open>str.find\<close> does, and returns the text before it and the text after it; \<open>None\<close> says
  that \<open>sep\<close> does not occur.
\<close>

fun py_partition :: "ustr \<Rightarrow> ustr \<Rightarrow> (ustr \<times> ustr) option" where
  "py_partition sep [] = None"
| "py_partition sep (c # cs) =
     (if prefix sep (c # cs) then Some ([], drop (length sep) (c # cs))
      else (case py_partition sep cs of None \<Rightarrow> None | Some (a, b) \<Rightarrow> Some (c # a, b)))"

lemma py_partition_shorter: "py_partition sep s = Some (a, rest) \<Longrightarrow> sep \<noteq> [] \<Longrightarrow> length rest < length s"
proof (induction s arbitrary: a)
  case Nil
  then show ?case by simp
next
  case (Cons c cs)
  show ?case
  proof (cases "prefix sep (c # cs)")
    case True
    with Cons.prems show ?thesis by (cases sep) auto
  next
    case False
    with Cons.prems obtain a' where "py_partition sep cs = Some (a', rest)"
      by (auto split: option.splits)
    with Cons.IH Cons.prems(2) show ?thesis by fastforce
  qed
qed

text \<open>
  \<open>s.split(sep)\<close> with a separator is \<open>py_split\<close>: Python raises \<open>ValueError\<close> on an
  empty separator, and \<open>split_at\<close> gives the pieces between the successive leftmost,
  non-overlapping occurrences of a non-empty one.
\<close>

function split_at :: "ustr \<Rightarrow> ustr \<Rightarrow> ustr list" where
  "split_at sep s =
     (if sep = [] then [s]
      else (case py_partition sep s of None \<Rightarrow> [s] | Some (a, rest) \<Rightarrow> a # split_at sep rest))"
  by pat_completeness auto
termination
  by (relation "measure (\<lambda>(sep, s). length s)") (auto dest: py_partition_shorter)

declare split_at.simps [simp del]

definition py_split :: "ustr \<Rightarrow> ustr \<Rightarrow> exn + ustr list" where
  "py_split sep s = (if sep = [] then Inl ValueError else Inr (split_at sep s))"

text \<open>\<open>sep.join(xs)\<close>.\<close>

fun py_join :: "ustr \<Rightarrow> ustr list \<Rightarrow> ustr" where
  "py_join sep [] = []"
| "py_join sep [x] = x"
| "py_join sep (x # y # zs) = x @ sep @ py_join sep (y # zs)"

section \<open>The response classifier\<close>

definition detect_content_type :: "unicode_db \<Rightarrow> ustr \<Rightarrow> ustr \<times> ustr" where
  "detect_content_type db content =
     (let content_lower = py_lower db (py_strip content) in
      if prefix (U ''<!doctype html'') content_lower \<or> prefix (U ''<html'') content_lower
      then (U ''text/html'', U ''html'')
      else if prefix (U ''{'') content_lower \<or> prefix (U ''['') content_lower
      then (U ''application/json'', U ''json'')
      else if py_in (U ''function'') content_lower \<or> py_in (U ''const '') content_lower
              \<or> py_in (U ''var '') content_lower
      then (U ''application/javascript'', U ''js'')
      else if prefix (U ''@'') content_lower
              \<or> (py_in (U ''{'') content \<and> py_in (U '':'') content \<and> py_in (U '';'') content)
      then (U ''text/css'', U ''css'')
      else (U ''text/plain'', U ''text''))"

text \<open>
  The four conditions of the \<open>if\<close>/\<open>elif\<close> chain, each under a name, and the
  specification's reading of the chain: an ordered list of rules (predicate, MIME type,
  tag) of which the first one that matches decides.
\<close>

definition is_html :: "unicode_db \<Rightarrow> ustr \<Rightarrow> bool" where
  "is_html db content =
     (prefix (U ''<!doctype html'') (py_lower db (py_strip content))
      \<or> prefix (U ''<html'') (py_lower db (py_strip content)))"

definition is_json :: "unicode_db \<Rightarrow> ustr \<Rightarrow> bool" where
  "is_json db content =
     (prefix (U ''{'') (py_lower db (py_strip content))
      \<or> prefix (U ''['') (py_lower db (py_strip content)))"

definition is_js :: "unicode_db \<Rightarrow> ustr \<Rightarrow> bool" where
  "is_js db content =
     (py_in (U ''function'') (py_lower db (py_strip content))
      \<or> py_in (U ''const '') (py_lower db (py_strip content))
      \<or> py_in (U ''var '') (py_lower db (py_strip content)))"

definition is_css :: "unicode_db \<Rightarrow> ustr \<Rightarrow> bool" where
  "is_css db content =
     (prefix (U ''@'') (py_lower db (py_strip content))
      \<or> (py_in (U ''{'') content \<and> py_in (U '':'') content \<and> py_in (U '';'') content))"

definition classification_rules :: "unicode_db \<Rightarrow> ((ustr \<Rightarrow> bool) \<times> ustr \<times> ustr) list" where
  "classification_rules db =
     [(is_html db, U ''text/html'', U ''html''),
      (is_json db, U ''application/json'', U ''json''),
      (is_js db, U ''application/javascript'', U ''js''),
      (is_css db, U ''text/css'', U ''css''),
      (\<lambda>content. True, U ''text/plain'', U ''text'')]"

fun first_match :: "(('a \<Rightarrow> bool) \<times> 'b) list \<Rightarrow> 'a \<Rightarrow> 'b option" where
  "first_match [] x = None"
| "first_match ((p, r) # rules) x = (if p x then Some r else first_match rules x)"

section \<open>The response sanitizer\<close>

definition FENCE :: ustr where
  "FENCE = U ''```''"

definition NL :: ustr where
  "NL = U ''\<newline>''"

definition LANGS :: "ustr list" where
  "LANGS = [U ''html'', U ''json'', U ''javascript'', U ''js'', U ''css'', U ''python'', U ''xml'']"

text \<open>
  The body of the loop for an odd index: the block is trimmed and split into lines; a first
  line that is a language identifier is dropped. \<open>lines[0]\<close> raises \<open>IndexError\<close> on an
  empty list.
\<close>

definition code_block :: "ustr \<Rightarrow> exn + ustr" where
  "code_block part =
     (case py_split NL (py_strip part) of
        Inl e \<Rightarrow> Inl e
      | Inr lines \<Rightarrow>
          (case lines of
             [] \<Rightarrow> Inl IndexError
           | l0 # ls \<Rightarrow> if py_strip l0 \<in> set LANGS then Inr (py_join NL ls) else Inr (py_strip part)))"

text \<open>
  \<open>for i, part in enumerate(parts)\<close>: the loop returns from inside at the first odd index;
  \<open>None\<close> says that it ran to its end.
\<close>

fun enumerate_parts :: "nat \<Rightarrow> ustr list \<Rightarrow> (exn + ustr) option" where
  "enumerate_parts i [] = None"
| "enumerate_parts i (part # parts) =
     (if i mod 2 = 1 then Some (code_block part) else enumerate_parts (i + 1) parts)"

definition clean_llm_response :: "ustr \<Rightarrow> exn + ustr" where
  "clean_llm_response content =
     (if py_in FENCE content then
        (case py_split FENCE content of
           Inl e \<Rightarrow> Inl e
         | Inr parts \<Rightarrow>
             (case enumerate_parts 0 parts of Some r \<Rightarrow> r | None \<Rightarrow> Inr content))
      else Inr content)"

text \<open>
  The specification speaks of the interior of the first fenced block: the text between the
  first fence and the next one, or the end of the text when the fence is never closed.
\<close>

definition first_fenced_block :: "ustr \<Rightarrow> ustr option" where
  "first_fenced_block s =
     (case py_partition FENCE s of
        None \<Rightarrow> None
      | Some (before, rest) \<Rightarrow>
          (case py_partition FENCE rest of None \<Rightarrow> Some rest | Some (blk, after) \<Rightarrow> Some blk))"

section \<open>The request handler\<close>

subsection \<open>Request bodies\<close>

text \<open>
  The body arrives as bytes. \<open>bytes.decode()\<close> is strict UTF-8 decoding: it raises
  \<open>UnicodeDecodeError\<close> on a byte that cannot start a character, on a wrong or missing
  continuation byte, on an overlong form, on a surrogate and above U+10FFFF. This is the one
  exception of the handler that is raised outside its \<open>try\<close> block.
\<close>

type_synonym byte = "8 word"

datatype propagated = UnicodeDecodeError

definition continuation :: "byte \<Rightarrow> bool" where
  "continuation b \<longleftrightarrow> 0x80 \<le> b \<and> b \<le> 0xBF"

definition second_of_3 :: "byte \<Rightarrow> byte \<Rightarrow> bool" where
  "second_of_3 b0 b1 =
     (if b0 = 0xE0 then 0xA0 \<le> b1 \<and> b1 \<le> 0xBF
      else if b0 = 0xED then 0x80 \<le> b1 \<and> b1 \<le> 0x9F
      else continuation b1)"

definition second_of_4 :: "byte \<Rightarrow> byte \<Rightarrow> bool" where
  "second_of_4 b0 b1 =
     (if b0 = 0xF0 then 0x90 \<le> b1 \<and> b1 \<le> 0xBF
      else if b0 = 0xF4 then 0x80 \<le> b1 \<and> b1 \<le> 0x8F
      else continuation b1)"

definition emit :: "nat \<Rightarrow> propagated + ustr \<Rightarrow> propagated + ustr" where
  "emit c r = (case r of Inl e \<Rightarrow> Inl e | Inr cs \<Rightarrow> Inr (c # cs))"

fun utf8_decode :: "byte list \<Rightarrow> propagated + ustr" where
  "utf8_decode [] = Inr []"
| "utf8_decode (b0 # bs) =
     (if b0 < 0x80 then emit (unat b0) (utf8_decode bs)
      else if 0xC2 \<le> b0 \<and> b0 \<le> 0xDF then
        (case bs of
           b1 # bs1 \<Rightarrow>
             if continuation b1
             then emit ((unat b0 - 0xC0) * 0x40 + (unat b1 - 0x80)) (utf8_decode bs1)
             else Inl UnicodeDecodeError
         | _ \<Rightarrow> Inl UnicodeDecodeError)
      else if 0xE0 \<le> b0 \<and> b0 \<le> 0xEF then
        (case bs of
           b1 # b2 # bs2 \<Rightarrow>
             if second_of_3 b0 b1 \<and> continuation b2
             then emit ((unat b0 - 0xE0) * 0x1000 + (unat b1 - 0x80) * 0x40 + (unat b2 - 0x80))
                    (utf8_decode bs2)
             else Inl UnicodeDecodeError
         | _ \<Rightarrow> Inl UnicodeDecodeError)
      else if 0xF0 \<le> b0 \<and> b0 \<le> 0xF4 then
        (case bs of
           b1 # b2 # b3 # bs3 \<Rightarrow>
             if second_of_4 b0 b1 \<and> continuation b2 \<and> continuation b3
             then emit ((unat b0 - 0xF0) * 0x40000 + (unat b1 - 0x80) * 0x1000
                          + (unat b2 - 0x80) * 0x40 + (unat b3 - 0x80))
                    (utf8_decode bs3)
             else Inl UnicodeDecodeError
         | _ \<Rightarrow> Inl UnicodeDecodeError)
      else Inl UnicodeDecodeError)"

text \<open>
  The values \<open>json.loads\<close> produces, which are also the values the variable \<open>body\<close> can
  hold: \<open>None\<close>, a \<open>bool\<close>, an \<open>int\<close>, a \<open>float\<close>, a \<open>str\<close>, a \<open>list\<close> or a \<open>dict\<close>.
  A float is kept as sign, significand and exponent, or as an infinity or a NaN.
\<close>

datatype pyfloat = Finite bool nat int | Infinity bool | NaN

datatype json =
    JNull
  | JBool bool
  | JInt int
  | JFloat pyfloat
  | JStr ustr
  | JArr "json list"
  | JObj "(ustr \<times> json) list"

text \<open>The truth value Python gives to \<open>body\<close> in \<open>if body\<close>.\<close>

fun truthy :: "json \<Rightarrow> bool" where
  "truthy JNull = False"
| "truthy (JBool b) = b"
| "truthy (JInt n) = (n \<noteq> 0)"
| "truthy (JFloat (Finite sign m e)) = (m \<noteq> 0)"
| "truthy (JFloat (Infinity sign)) = True"
| "truthy (JFloat NaN) = True"
| "truthy (JStr s) = (s \<noteq> [])"
| "truthy (JArr xs) = (xs \<noteq> [])"
| "truthy (JObj kvs) = (kvs \<noteq> [])"

subsection \<open>Requests, responses and the collaborators outside the repository\<close>

text \<open>
  \<open>http_method\<close> is \<open>request.method\<close>; \<open>query_params\<close> holds the pairs of the query
  string in their order; \<open>raw_body\<close> is what \<open>await request.body()\<close> returns;
  \<open>full_path\<close> is the path without its leading slash.
\<close>

record request =
  http_method :: ustr
  full_path :: ustr
  query_params :: "(ustr \<times> ustr) list"
  raw_body :: "byte list"

text \<open>\<open>Response(content, media_type, status_code)\<close>; the status code defaults to 200.\<close>

record response =
  content :: ustr
  media_type :: ustr
  status_code :: nat

text \<open>
  What the handler calls and the repository does not contain:
  \<^item> \<open>lower_db\<close>, the Unicode database behind \<open>str.lower()\<close>;
  \<^item> \<open>json_loads\<close>, the parser behind \<open>await request.json()\<close>, applied to the raw body;
    \<open>None\<close> says that it raised, whatever the exception;
  \<^item> \<open>json_dumps\<close>, which is \<open>json.dumps(\<cdot>, indent=2)\<close>;
  \<^item> \<open>generate_text\<close>, the call of the generative model with a prompt and a temperature,
    up to reading \<open>response.text\<close>; \<open>Inl e\<close> says that it raised \<open>e\<close>.
\<close>

record env =
  lower_db :: unicode_db
  json_loads :: "byte list \<Rightarrow> json option"
  json_dumps :: "json \<Rightarrow> ustr"
  generate_text :: "ustr \<Rightarrow> pyfloat \<Rightarrow> exn + ustr"

definition TEMPERATURE :: pyfloat where
  "TEMPERATURE = Finite False 0 0"

text \<open>
  \<open>dict(request.query_params)\<close>: a key keeps the position of its first occurrence and the
  value of its last one.
\<close>

fun dict_set :: "(ustr \<times> ustr) list \<Rightarrow> ustr \<Rightarrow> ustr \<Rightarrow> (ustr \<times> ustr) list" where
  "dict_set [] k v = [(k, v)]"
| "dict_set ((k', v') # d) k v = (if k' = k then (k, v) # d else (k', v') # dict_set d k v)"

definition py_dict :: "(ustr \<times> ustr) list \<Rightarrow> (ustr \<times> ustr) list" where
  "py_dict items = foldl (\<lambda>d (k, v). dict_set d k v) [] items"

subsection \<open>The handler\<close>

text \<open>
  The body is read for POST, PUT and PATCH only: the parsed value if parsing succeeds,
  else the decoded bytes if there are any, else \<open>None\<close>.
\<close>

definition extract_body :: "env \<Rightarrow> request \<Rightarrow> propagated + json" where
  "extract_body E r =
     (if http_method r \<in> set [U ''POST'', U ''PUT'', U ''PATCH''] then
        (case json_loads E (raw_body r) of
           Some v \<Rightarrow> Inr v
         | None \<Rightarrow>
             if raw_body r \<noteq> [] then
               (case utf8_decode (raw_body r) of Inl e \<Rightarrow> Inl e | Inr s \<Rightarrow> Inr (JStr s))
             else Inr JNull)
      else Inr JNull)"

definition PROMPT_INTRO :: ustr where
  "PROMPT_INTRO =
     U ''You are a web server. A request has come in and you must generate the appropriate content.\<newline>'' @
     U ''\<newline>'' @
     U ''REQUEST:\<newline>''"

definition PROMPT_INSTRUCTIONS :: ustr where
  "PROMPT_INSTRUCTIONS =
     U ''\<newline>'' @
     U ''\<newline>'' @
     U ''YOUR TASK:\<newline>'' @
     U ''Analyze the path and generate appropriate content.\<newline>'' @
     U ''\<newline>'' @
     U ''RULES:\<newline>'' @
     U ''- If path looks like a webpage (/, /home, /about, etc.) '' @ [0x2192] @ U '' generate complete HTML with CSS\<newline>'' @
     U ''- If path suggests API (/api/*, /data/*, *.json) '' @ [0x2192] @ U '' generate JSON data\<newline>'' @
     U ''- If path ends in .js '' @ [0x2192] @ U '' generate JavaScript code\<newline>'' @
     U ''- If path ends in .css '' @ [0x2192] @ U '' generate CSS code\<newline>'' @
     U ''- Return ONLY the content, no explanations or markdown\<newline>'' @
     U ''\<newline>'' @
     U ''FOR HTML PAGES - MODERN WEBSITE:\<newline>'' @
     U ''- Use modern frameworks/libraries via CDN (public hosted URLs)\<newline>'' @
     U ''- Can include: Three.js, React, Vue, D3.js, GSAP, anime.js, particles.js, etc.\<newline>'' @
     U ''- Use CDN links like: unpkg.com, cdn.jsdelivr.net, cdnjs.cloudflare.com\<newline>'' @
     U ''- Example: <script src=\"https://unpkg.com/three@0.160.0/build/three.min.js\"></script>\<newline>'' @
     U ''- Example: <script crossorigin src=\"https://unpkg.com/react@18/umd/react.production.min.js\"></script>\<newline>'' @
     U ''- Create interactive, animated, beautiful modern UI with gradients, shadows, animations\<newline>'' @
     U ''- Make it functional and engaging with the CDN libraries\<newline>'' @
     U ''\<newline>'' @
     U ''IMAGES & MEDIA:\<newline>'' @
     U ''- Always use public hosted images/media from: unsplash.com, picsum.photos, placeholder.com, or other free image services\<newline>'' @
     U ''- Example: https://picsum.photos/800/600 for random images\<newline>'' @
     U ''- Example: https://source.unsplash.com/random/800x600/?nature for themed images\<newline>'' @
     U ''- Never use local paths - only public URLs\<newline>'' @
     U ''\<newline>'' @
     U ''ICONS:\<newline>'' @
     U ''- Always use public hosted icon libraries via CDN\<newline>'' @
     U ''- Font Awesome: <link rel=\"stylesheet\" href=\"https://cdnjs.cloudflare.com/ajax/libs/font-awesome/6.4.0/css/all.min.css\">\<newline>'' @
     U ''- Bootstrap Icons: <link rel=\"stylesheet\" href=\"https://cdn.jsdelivr.net/npm/bootstrap-icons@1.11.0/font/bootstrap-icons.css\">\<newline>'' @
     U ''- Or use SVG icons from: heroicons.com, feathericons.com\<newline>'' @
     U ''- Never use local icon files\<newline>'' @
     U ''\<newline>'' @
     U ''Be creative, functional, and unpredictable!\<newline>'' @
     U ''\<newline>'' @
     U ''Generate now:''"

definition build_prompt :: "env \<Rightarrow> ustr \<Rightarrow> ustr \<Rightarrow> (ustr \<times> ustr) list \<Rightarrow> json \<Rightarrow> ustr" where
  "build_prompt E meth path params body =
     PROMPT_INTRO @
     U ''- Method: '' @ meth @
     U ''\<newline>- Path: /'' @ path @
     U ''\<newline>- Query Parameters: '' @
       (if params \<noteq> [] then json_dumps E (JObj (map (\<lambda>(k, v). (k, JStr v)) params)) else U ''None'') @
     U ''\<newline>- Request Body: '' @
       (if truthy body then json_dumps E body else U ''None'') @
     PROMPT_INSTRUCTIONS"

definition ERROR_PAGE_HEAD :: ustr where
  "ERROR_PAGE_HEAD =
     U ''<!DOCTYPE html>\<newline>'' @
     U ''<html>\<newline>'' @
     U ''<head>\<newline>'' @
     U ''    <title>Error</title>\<newline>'' @
     U ''    <style>\<newline>'' @
     U ''        body {\<newline>'' @
     U ''            font-family: -apple-system, BlinkMacSystemFont, '' @ [0x27] @ U ''Segoe UI'' @ [0x27] @ U '', sans-serif;\<newline>'' @
     U ''            max-width: 600px;\<newline>'' @
     U ''            margin: 100px auto;\<newline>'' @
     U ''            padding: 20px;\<newline>'' @
     U ''            background: linear-gradient(135deg, #667eea 0%, #764ba2 100%);\<newline>'' @
     U ''            min-height: 100vh;\<newline>'' @
     U ''        }\<newline>'' @
     U ''        .error {\<newline>'' @
     U ''            background: white;\<newline>'' @
     U ''            border-radius: 12px;\<newline>'' @
     U ''            padding: 30px;\<newline>'' @
     U ''            box-shadow: 0 20px 60px rgba(0,0,0,0.3);\<newline>'' @
     U ''        }\<newline>'' @
     U ''        h1 { color: #e74c3c; margin: 0 0 20px 0; }\<newline>'' @
     U ''        p { color: #666; line-height: 1.6; }\<newline>'' @
     U ''        a { \<newline>'' @
     U ''            color: #667eea; \<newline>'' @
     U ''            text-decoration: none;\<newline>'' @
     U ''            font-weight: 600;\<newline>'' @
     U ''        }\<newline>'' @
     U ''        a:hover { text-decoration: underline; }\<newline>'' @
     U ''        .path { \<newline>'' @
     U ''            background: #f8f9fa;\<newline>'' @
     U ''            padding: 10px;\<newline>'' @
     U ''            border-radius: 4px;\<newline>'' @
     U ''            font-family: monospace;\<newline>'' @
     U ''            margin: 10px 0;\<newline>'' @
     U ''        }\<newline>'' @
     U ''    </style>\<newline>'' @
     U ''</head>\<newline>'' @
     U ''<body>\<newline>'' @
     U ''    <div class=\"error\">\<newline>'' @
     U ''        <h1>'' @ [0x26A0, 0xFE0F] @ U '' Generation Failed</h1>\<newline>'' @
     U ''        <p><strong>Path:</strong></p>\<newline>'' @
     U ''        <div class=\"path\">''"

definition ERROR_PAGE_MIDDLE :: ustr where
  "ERROR_PAGE_MIDDLE =
     U ''</div>\<newline>'' @
     U ''        <p><strong>Error:</strong> ''"

definition ERROR_PAGE_FOOT :: ustr where
  "ERROR_PAGE_FOOT =
     U ''</p>\<newline>'' @
     U ''        <p><a href=\"/\">'' @ [0x2190] @ U '' Try Homepage</a></p>\<newline>'' @
     U ''    </div>\<newline>'' @
     U ''</body>\<newline>'' @
     U ''</html>''"

definition error_html :: "ustr \<Rightarrow> exn \<Rightarrow> ustr" where
  "error_html path e =
     ERROR_PAGE_HEAD @ U ''/'' @ path @ ERROR_PAGE_MIDDLE @ str_exn e @ ERROR_PAGE_FOOT"

text \<open>The prompt the handler builds before it enters its \<open>try\<close> block.\<close>

definition request_prompt :: "env \<Rightarrow> request \<Rightarrow> propagated + ustr" where
  "request_prompt E r =
     (case extract_body E r of
        Inl e \<Rightarrow> Inl e
      | Inr body \<Rightarrow> Inr (build_prompt E (http_method r) (full_path r) (py_dict (query_params r)) body))"

text \<open>The \<open>try\<close> block: the model is called once, its text is sanitized and classified.\<close>

definition generate_response :: "env \<Rightarrow> ustr \<Rightarrow> exn + response" where
  "generate_response E prompt =
     (case generate_text E prompt TEMPERATURE of
        Inl e \<Rightarrow> Inl e
      | Inr text \<Rightarrow>
          (case clean_llm_response text of
             Inl e \<Rightarrow> Inl e
           | Inr cleaned \<Rightarrow>
               (case detect_content_type (lower_db E) cleaned of
                  (mime, tag) \<Rightarrow>
                    Inr \<lparr>content = cleaned, media_type = mime, status_code = 200\<rparr>)))"

text \<open>
  The handler. \<open>Inl e\<close> says that \<open>e\<close> leaves the handler; \<open>except Exception\<close> turns every
  exception of the \<open>try\<close> block into the error page.
\<close>

definition catch_all :: "env \<Rightarrow> request \<Rightarrow> propagated + response" where
  "catch_all E r =
     (case request_prompt E r of
        Inl e \<Rightarrow> Inl e
      | Inr prompt \<Rightarrow>
          (case generate_response E prompt of
             Inr resp \<Rightarrow> Inr resp
           | Inl e \<Rightarrow>
               Inr \<lparr>content = error_html (full_path r) e, media_type = U ''text/html'',
                    status_code = 500\<rparr>))"

section \<open>Facts about searching, splitting and trimming\<close>

lemma py_in_sublist: "py_in sub s \<longleftrightarrow> sublist sub s"
  by (induction s) (auto simp: sublist_Cons_right)

lemma py_partition_None: "sep \<noteq> [] \<Longrightarrow> py_partition sep s = None \<longleftrightarrow> \<not> py_in sep s"
  by (induction s) (auto split: option.splits)

lemma py_partition_Some_append:
  "py_partition sep s = Some (a, b) \<Longrightarrow> s = a @ sep @ b"
proof (induction s arbitrary: a)
  case Nil
  then show ?case by simp
next
  case (Cons c cs)
  show ?case
  proof (cases "prefix sep (c # cs)")
    case True
    with Cons.prems have "a = []" "b = drop (length sep) (c # cs)" by auto
    moreover from True have "c # cs = sep @ drop (length sep) (c # cs)"
      by (metis append_eq_conv_conj prefixE)
    ultimately show ?thesis by simp
  next
    case False
    with Cons.prems obtain a' where a': "py_partition sep cs = Some (a', b)" "a = c # a'"
      by (auto split: option.splits)
    with Cons.IH show ?thesis by simp
  qed
qed

lemma py_partition_leftmost:
  "py_partition sep s = Some (a, b) \<Longrightarrow> sep \<noteq> [] \<Longrightarrow> \<not> py_in sep (a @ butlast sep)"
proof (induction s arbitrary: a)
  case Nil
  then show ?case by simp
next
  case (Cons c cs)
  show ?case
  proof (cases "prefix sep (c # cs)")
    case True
    with Cons.prems have "a = []" by auto
    moreover have "\<not> sublist sep (butlast sep)"
      using Cons.prems(2) by (metis length_butlast sublist_length_le length_greater_0_conv diff_less less_numeral_extra(1) not_le)
    ultimately show ?thesis by (simp add: py_in_sublist)
  next
    case False
    with Cons.prems obtain a' where a': "py_partition sep cs = Some (a', b)" "a = c # a'"
      by (auto split: option.splits)
    from Cons.IH[OF a'(1) Cons.prems(2)] have ih: "\<not> py_in sep (a' @ butlast sep)" .
    have "c # cs = c # a' @ sep @ b" using py_partition_Some_append[OF a'(1)] by simp
    with False have "\<not> prefix sep (c # a' @ sep @ b)" by simp
    moreover have "prefix sep (c # a' @ butlast sep) \<Longrightarrow> prefix sep (c # a' @ sep @ b)"
    proof -
      assume "prefix sep (c # a' @ butlast sep)"
      moreover have "prefix (c # a' @ butlast sep) (c # a' @ sep @ b)"
        by (simp add: prefixeq_butlast prefix_order.order_trans)
      ultimately show ?thesis using prefix_order.order_trans by blast
    qed
    ultimately show ?thesis using ih a'(2) by auto
  qed
qed

lemma py_partition_first:
  assumes "sep \<noteq> []" "\<not> py_in sep (a @ butlast sep)"
  shows "py_partition sep (a @ sep @ b) = Some (a, b)"
  using assms(2)
proof (induction a)
  case Nil
  then show ?case using assms(1) by (cases sep) auto
next
  case (Cons c a)
  have np: "\<not> prefix sep (c # a @ sep @ b)"
  proof
    assume p: "prefix sep (c # a @ sep @ b)"
    have "prefix (c # a @ butlast sep) (c # a @ sep @ b)"
      by (simp add: prefixeq_butlast prefix_order.order_trans)
    moreover have "length sep \<le> length (c # a @ butlast sep)" by simp
    ultimately have "prefix sep (c # a @ butlast sep)"
      using p by (metis prefix_length_prefix)
    with Cons.prems show False by simp
  qed
  from Cons.prems have "\<not> py_in sep (a @ butlast sep)" by simp
  with Cons.IH have "py_partition sep (a @ sep @ b) = Some (a, b)" by simp
  with np show ?case by simp
qed

lemma py_partition_iff:
  "sep \<noteq> [] \<Longrightarrow>
   py_partition sep s = Some (a, b) \<longleftrightarrow> s = a @ sep @ b \<and> \<not> py_in sep (a @ butlast sep)"
  using py_partition_Some_append py_partition_leftmost py_partition_first by blast

lemma py_partition_before_free:
  assumes "py_partition sep s = Some (a, b)" "sep \<noteq> []"
  shows "\<not> py_in sep a"
proof -
  have "\<not> sublist sep (a @ butlast sep)"
    using py_partition_leftmost[OF assms] by (simp add: py_in_sublist)
  then show ?thesis
    unfolding py_in_sublist using sublist_order.order_trans by blast
qed

lemma split_at_nonempty: "split_at sep s \<noteq> []"
  by (subst split_at.simps) (auto split: option.splits)

lemma split_at_None: "sep \<noteq> [] \<Longrightarrow> py_partition sep s = None \<Longrightarrow> split_at sep s = [s]"
  by (subst split_at.simps) simp

lemma split_at_Some:
  "sep \<noteq> [] \<Longrightarrow> py_partition sep s = Some (a, b) \<Longrightarrow> split_at sep s = a # split_at sep b"
  by (subst split_at.simps) simp

lemma split_at_parts_free:
  "sep \<noteq> [] \<Longrightarrow> p \<in> set (split_at sep s) \<Longrightarrow> \<not> py_in sep p"
proof (induction sep s rule: split_at.induct)
  case (1 sep s)
  show ?case
  proof (cases "py_partition sep s")
    case None
    with "1.prems" have "p = s" by (subst (asm) split_at.simps) simp
    with None "1.prems"(1) show ?thesis by (simp add: py_partition_None)
  next
    case (Some ab)
    obtain a b where ab: "ab = (a, b)" by (cases ab)
    with Some "1.prems" have "p = a \<or> p \<in> set (split_at sep b)"
      by (simp add: split_at_Some)
    then show ?thesis
    proof
      assume "p = a"
      with Some ab "1.prems"(1) show ?thesis by (simp add: py_partition_before_free)
    next
      assume "p \<in> set (split_at sep b)"
      with "1.IH"[OF "1.prems"(1) _ refl] Some ab "1.prems"(1) show ?thesis by simp
    qed
  qed
qed

lemma py_join_Cons: "py_join sep (x # xs) = (if xs = [] then x else x @ sep @ py_join sep xs)"
  by (cases xs) simp_all

lemma py_join_split_at: "sep \<noteq> [] \<Longrightarrow> py_join sep (split_at sep s) = s"
proof (induction sep s rule: split_at.induct)
  case (1 sep s)
  show ?case
  proof (cases "py_partition sep s")
    case None
    with "1.prems" show ?thesis by (subst split_at.simps) simp
  next
    case (Some ab)
    obtain a b where ab: "ab = (a, b)" by (cases ab)
    have "py_join sep (split_at sep b) = b"
      using "1.IH"[OF "1.prems" _ refl] Some ab "1.prems" by simp
    moreover have "s = a @ sep @ b" using Some ab py_partition_Some_append by simp
    moreover have "split_at sep s = a # split_at sep b"
      using Some ab "1.prems" by (subst split_at.simps) simp
    ultimately show ?thesis by (simp add: py_join_Cons split_at_nonempty)
  qed
qed

lemma py_strip_sublist: "sublist (py_strip s) s"
proof -
  have "suffix (dropWhile isspace s) s" by (rule suffix_dropWhile)
  moreover have "prefix (py_strip s) (dropWhile isspace s)"
    unfolding py_strip_def by (metis suffix_dropWhile suffix_to_prefix rev_rev_ident)
  ultimately show ?thesis
    by (meson prefix_imp_sublist suffix_imp_sublist sublist_order.order_trans)
qed

section \<open>Facts about the sanitizer\<close>

lemma FENCE_nonempty: "FENCE \<noteq> []" by (simp add: FENCE_def)
lemma NL_nonempty: "NL \<noteq> []" by (simp add: NL_def)

lemma split_at_second:
  assumes "sep \<noteq> []" "py_partition sep s = Some (a, rest)"
  shows "\<exists>blk tl. split_at sep s = a # blk # tl \<and>
           (case py_partition sep rest of None \<Rightarrow> blk = rest | Some (b, c) \<Rightarrow> blk = b)"
proof (cases "py_partition sep rest")
  case None
  with assms show ?thesis by (simp add: split_at_Some split_at_None)
next
  case (Some bc)
  then obtain b c where "py_partition sep rest = Some (b, c)" by (cases bc) simp
  with assms show ?thesis by (simp add: split_at_Some)
qed

lemma code_block_eq:
  "code_block part =
     (case split_at NL (py_strip part) of
        [] \<Rightarrow> Inl IndexError
      | l0 # ls \<Rightarrow> if py_strip l0 \<in> set LANGS then Inr (py_join NL ls) else Inr (py_strip part))"
  by (simp add: code_block_def py_split_def NL_nonempty)

lemma clean_fenced:
  assumes "py_in FENCE s"
  shows "\<exists>blk. first_fenced_block s = Some blk \<and> 1 < length (split_at FENCE s) \<and>
           split_at FENCE s ! 1 = blk \<and> clean_llm_response s = code_block blk"
proof -
  from assms obtain a rest where p: "py_partition FENCE s = Some (a, rest)"
    using py_partition_None[OF FENCE_nonempty, of s] by (cases "py_partition FENCE s") auto
  from split_at_second[OF FENCE_nonempty p] obtain blk tl where
    sp: "split_at FENCE s = a # blk # tl" and
    blk: "case py_partition FENCE rest of None \<Rightarrow> blk = rest | Some (b, c) \<Rightarrow> blk = b"
    by blast
  from p blk have "first_fenced_block s = Some blk"
    by (auto simp: first_fenced_block_def split: option.splits)
  moreover from sp assms have "clean_llm_response s = code_block blk"
    by (simp add: clean_llm_response_def py_split_def FENCE_nonempty)
  ultimately show ?thesis using sp by simp
qed

lemma code_block_total:
  "\<exists>l0 ls. split_at NL (py_strip part) = l0 # ls \<and>
     code_block part = Inr (if py_strip l0 \<in> set LANGS then py_join NL ls else py_strip part)"
proof (cases "split_at NL (py_strip part)")
  case Nil
  then show ?thesis by (simp add: split_at_nonempty)
next
  case (Cons l0 ls)
  then show ?thesis by (simp add: code_block_eq)
qed

lemma py_join_tail_suffix: "suffix (py_join sep ls) (py_join sep (l0 # ls))"
  by (cases ls) (simp_all add: suffix_def)

lemma code_block_sublist:
  assumes "code_block part = Inr r"
  shows "sublist r part"
proof -
  from code_block_total[of part] obtain l0 ls where
    sp: "split_at NL (py_strip part) = l0 # ls" and
    cb: "code_block part = Inr (if py_strip l0 \<in> set LANGS then py_join NL ls else py_strip part)"
    by blast
  have "py_join NL (l0 # ls) = py_strip part"
    using py_join_split_at[OF NL_nonempty, of "py_strip part"] sp by simp
  then have "suffix (py_join NL ls) (py_strip part)"
    using py_join_tail_suffix[of NL ls l0] by simp
  then have "sublist (py_join NL ls) part"
    using py_strip_sublist[of part] by (meson suffix_imp_sublist sublist_order.order_trans)
  with cb assms py_strip_sublist[of part] show ?thesis by (auto split: if_splits)
qed

lemma clean_no_fence: "\<not> py_in FENCE s \<Longrightarrow> clean_llm_response s = Inr s"
  by (simp add: clean_llm_response_def)

lemma clean_result_fence_free:
  assumes "py_in FENCE s"
  shows "\<exists>r. clean_llm_response s = Inr r \<and> \<not> py_in FENCE r"
proof -
  from clean_fenced[OF assms] obtain blk where
    b: "1 < length (split_at FENCE s)" "split_at FENCE s ! 1 = blk"
       "clean_llm_response s = code_block blk" by blast
  from b(1,2) have "blk \<in> set (split_at FENCE s)" by (metis nth_mem)
  then have free: "\<not> sublist FENCE blk"
    using split_at_parts_free[OF FENCE_nonempty] by (simp add: py_in_sublist)
  from code_block_total[of blk] obtain r where r: "code_block blk = Inr r" by blast
  then have "sublist r blk" by (rule code_block_sublist)
  with free have "\<not> sublist FENCE r" using sublist_order.order_trans by blast
  with r b(3) show ?thesis by (simp add: py_in_sublist)
qed

lemma first_fenced_block_append:
  assumes "\<not> py_in FENCE (pre @ U ''``'')" "\<not> py_in FENCE (blk @ U ''``'')"
  shows "first_fenced_block (pre @ FENCE @ blk @ FENCE @ post) = Some blk"
proof -
  have bl: "butlast FENCE = U ''``''" by (simp add: FENCE_def)
  have "py_partition FENCE (pre @ FENCE @ (blk @ FENCE @ post)) = Some (pre, blk @ FENCE @ post)"
    using assms(1) by (intro py_partition_first[OF FENCE_nonempty]) (simp add: bl)
  moreover have "py_partition FENCE (blk @ FENCE @ post) = Some (blk, post)"
    using assms(2) by (intro py_partition_first[OF FENCE_nonempty]) (simp add: bl)
  ultimately show ?thesis by (simp add: first_fenced_block_def)
qed

lemma clean_of_first_block:
  assumes "first_fenced_block s = Some blk"
  shows "clean_llm_response s = code_block blk"
proof -
  from assms have "py_partition FENCE s \<noteq> None"
    by (auto simp: first_fenced_block_def split: option.splits)
  then have "py_in FENCE s" by (simp add: py_partition_None[OF FENCE_nonempty])
  from clean_fenced[OF this] assms show ?thesis by auto
qed

section \<open>The sanitizer: what the specification claims\<close>

text \<open>
  C7. On a text that contains no triple-backtick fence the sanitizer returns its input
  unchanged. "Contains no fence" is stated with \<^const>\<open>sublist\<close>: there are no \<open>ps\<close> and
  \<open>ss\<close> with \<open>s = ps @ FENCE @ ss\<close>.
\<close>

theorem fence_free_unchanged:
  "\<not> sublist FENCE s \<Longrightarrow> clean_llm_response s = Inr s"
  by (simp add: clean_llm_response_def py_in_sublist)

theorem fence_free_unchanged_witness:
  "\<not> sublist FENCE (U ''<p>a `` b</p>'') \<and>
   clean_llm_response (U ''<p>a `` b</p>'') = Inr (U ''<p>a `` b</p>'')"
proof -
  have "\<not> py_in FENCE (U ''<p>a `` b</p>'')" by code_simp
  then have h: "\<not> sublist FENCE (U ''<p>a `` b</p>'')" using py_in_sublist by blast
  from fence_free_unchanged[OF h] h show ?thesis by blast
qed

text \<open>
  C9. The sanitizer is idempotent on every input: it always returns a text \<open>r\<close>, and
  sanitizing \<open>r\<close> again returns \<open>r\<close>. The reason is the one the claim gives: the result for
  a fenced input contains no fence, and a fence-free text is returned as it is.
\<close>

theorem clean_llm_response_idempotent:
  "\<exists>r. clean_llm_response s = Inr r \<and> clean_llm_response r = Inr r \<and>
       (if py_in FENCE s then \<not> py_in FENCE r else r = s)"
proof (cases "py_in FENCE s")
  case True
  from clean_result_fence_free[OF True] obtain r where
    "clean_llm_response s = Inr r" "\<not> py_in FENCE r" by blast
  with True show ?thesis by (auto simp: clean_no_fence)
next
  case False
  then show ?thesis by (simp add: clean_no_fence)
qed

theorem clean_llm_response_idempotent_witness:
  "py_in FENCE (U ''Sure:\<newline>```js\<newline>let a = 1;\<newline>```\<newline>Enjoy ```x```'') \<and>
   clean_llm_response (U ''Sure:\<newline>```js\<newline>let a = 1;\<newline>```\<newline>Enjoy ```x```'')
     = Inr (U ''let a = 1;'') \<and>
   clean_llm_response (U ''let a = 1;'') = Inr (U ''let a = 1;'') \<and>
   \<not> py_in FENCE (U ''let a = 1;'')"
proof -
  let ?s = "U ''Sure:\<newline>```js\<newline>let a = 1;\<newline>```\<newline>Enjoy ```x```''"
  have h: "py_in FENCE ?s" by code_simp
  have e: "clean_llm_response ?s = Inr (U ''let a = 1;'')" by code_simp
  from clean_llm_response_idempotent[of ?s] obtain r where
    r: "clean_llm_response ?s = Inr r" "clean_llm_response r = Inr r"
       "if py_in FENCE ?s then \<not> py_in FENCE r else r = ?s" by blast
  from r(1) e have "r = U ''let a = 1;''" by simp
  with r h e show ?thesis by simp
qed

text \<open>
  C3. When the text contains a fence, the sanitizer works on the interior of the first
  fenced block, which is the segment of index 1 of the split on the fence. The block is
  trimmed and split into lines; there is always a first line, and when that line, trimmed,
  is one of html, json, javascript, js, css, python, xml, the result is the remaining lines
  joined by newlines. The specification's example is the last conjunct.
\<close>

theorem fenced_language_tag_dropped:
  "(py_in FENCE s \<longrightarrow>
      (\<exists>blk l0 ls. first_fenced_block s = Some blk \<and>
         1 < length (split_at FENCE s) \<and> split_at FENCE s ! 1 = blk \<and>
         split_at NL (py_strip blk) = l0 # ls \<and>
         (py_strip l0 \<in> set LANGS \<longrightarrow> clean_llm_response s = Inr (py_join NL ls)))) \<and>
   clean_llm_response (U ''```html\<newline><p>hi</p>\<newline>```'') = Inr (U ''<p>hi</p>'')"
proof (intro conjI impI)
  assume f: "py_in FENCE s"
  from clean_fenced[OF f] obtain blk where
    b: "first_fenced_block s = Some blk" "1 < length (split_at FENCE s)"
       "split_at FENCE s ! 1 = blk" "clean_llm_response s = code_block blk" by blast
  from code_block_total[of blk] obtain l0 ls where
    l: "split_at NL (py_strip blk) = l0 # ls"
       "code_block blk = Inr (if py_strip l0 \<in> set LANGS then py_join NL ls else py_strip blk)"
    by blast
  from b l show "\<exists>blk l0 ls. first_fenced_block s = Some blk \<and>
         1 < length (split_at FENCE s) \<and> split_at FENCE s ! 1 = blk \<and>
         split_at NL (py_strip blk) = l0 # ls \<and>
         (py_strip l0 \<in> set LANGS \<longrightarrow> clean_llm_response s = Inr (py_join NL ls))"
    by auto
next
  show "clean_llm_response (U ''```html\<newline><p>hi</p>\<newline>```'') = Inr (U ''<p>hi</p>'')"
    by code_simp
qed

theorem fenced_language_tag_dropped_witness:
  "py_in FENCE (U ''Here:\<newline>```\<newline> json \<newline>{}\<newline>[]\<newline>```\<newline>'') \<and>
   first_fenced_block (U ''Here:\<newline>```\<newline> json \<newline>{}\<newline>[]\<newline>```\<newline>'')
     = Some (U ''\<newline> json \<newline>{}\<newline>[]\<newline>'') \<and>
   split_at NL (py_strip (U ''\<newline> json \<newline>{}\<newline>[]\<newline>'')) = [U ''json '', U ''{}'', U ''[]''] \<and>
   py_strip (U ''json '') \<in> set LANGS \<and>
   clean_llm_response (U ''Here:\<newline>```\<newline> json \<newline>{}\<newline>[]\<newline>```\<newline>'')
     = Inr (U ''{}\<newline>[]'')"
proof -
  let ?s = "U ''Here:\<newline>```\<newline> json \<newline>{}\<newline>[]\<newline>```\<newline>''"
  let ?b = "U ''\<newline> json \<newline>{}\<newline>[]\<newline>''"
  have h: "py_in FENCE ?s" by code_simp
  have fb: "first_fenced_block ?s = Some ?b" by code_simp
  have sp: "split_at NL (py_strip ?b) = [U ''json '', U ''{}'', U ''[]'']" by code_simp
  have tag: "py_strip (U ''json '') \<in> set LANGS" by code_simp
  have jn: "py_join NL [U ''{}'', U ''[]''] = U ''{}\<newline>[]''" by code_simp
  from fenced_language_tag_dropped[of ?s] h obtain blk l0 ls where
    o: "first_fenced_block ?s = Some blk" "split_at NL (py_strip blk) = l0 # ls"
       "py_strip l0 \<in> set LANGS \<longrightarrow> clean_llm_response ?s = Inr (py_join NL ls)"
    by blast
  from o(1) fb have "blk = ?b" by simp
  with o(2) sp have "l0 = U ''json ''" "ls = [U ''{}'', U ''[]'']" by simp_all
  with o(3) tag jn have "clean_llm_response ?s = Inr (U ''{}\<newline>[]'')" by simp
  with h fb sp tag show ?thesis by blast
qed

text \<open>
  C4. When the text contains a fence, the result is taken from the interior of the first
  fenced block alone: it is a contiguous piece of that interior, and a text
  \<open>pre @ FENCE @ blk @ FENCE @ post\<close> whose first fence is the one after \<open>pre\<close> and whose
  second fence is the one after \<open>blk\<close> is sanitized to the same result whatever \<open>pre\<close> and
  \<open>post\<close> are (\<open>post\<close> may hold further fenced blocks). When the first line of the trimmed
  block is not a language identifier, the result is the whole block, trimmed. The
  specification's example is the last conjunct.
\<close>

theorem only_first_fenced_block:
  "(py_in FENCE s \<longrightarrow>
      (\<exists>blk r l0 ls. first_fenced_block s = Some blk \<and> clean_llm_response s = Inr r \<and>
         sublist r blk \<and> split_at NL (py_strip blk) = l0 # ls \<and>
         (py_strip l0 \<notin> set LANGS \<longrightarrow> r = py_strip blk))) \<and>
   (\<not> py_in FENCE (pre @ U ''``'') \<and> \<not> py_in FENCE (b @ U ''``'') \<longrightarrow>
      first_fenced_block (pre @ FENCE @ b @ FENCE @ post) = Some b \<and>
      clean_llm_response (pre @ FENCE @ b @ FENCE @ post) = clean_llm_response (FENCE @ b @ FENCE)) \<and>
   clean_llm_response (U ''```\<newline>{\"a\":1}\<newline>```'') = Inr (U ''{\"a\":1}'')"
proof (intro conjI impI)
  assume f: "py_in FENCE s"
  from clean_fenced[OF f] obtain blk where
    b: "first_fenced_block s = Some blk" "clean_llm_response s = code_block blk" by blast
  from code_block_total[of blk] obtain l0 ls where
    l: "split_at NL (py_strip blk) = l0 # ls"
       "code_block blk = Inr (if py_strip l0 \<in> set LANGS then py_join NL ls else py_strip blk)"
    by blast
  let ?r = "if py_strip l0 \<in> set LANGS then py_join NL ls else py_strip blk"
  have "sublist ?r blk" using l(2) by (rule code_block_sublist)
  with b l show "\<exists>blk r l0 ls. first_fenced_block s = Some blk \<and> clean_llm_response s = Inr r \<and>
         sublist r blk \<and> split_at NL (py_strip blk) = l0 # ls \<and>
         (py_strip l0 \<notin> set LANGS \<longrightarrow> r = py_strip blk)"
    by auto
next
  assume a: "\<not> py_in FENCE (pre @ U ''``'') \<and> \<not> py_in FENCE (b @ U ''``'')"
  then show "first_fenced_block (pre @ FENCE @ b @ FENCE @ post) = Some b"
    by (simp add: first_fenced_block_append)
next
  assume a: "\<not> py_in FENCE (pre @ U ''``'') \<and> \<not> py_in FENCE (b @ U ''``'')"
  have e: "\<not> py_in FENCE ([] @ U ''``'')" by (simp add: FENCE_def)
  have "first_fenced_block (pre @ FENCE @ b @ FENCE @ post) = Some b"
    using a by (simp add: first_fenced_block_append)
  moreover have "first_fenced_block ([] @ FENCE @ b @ FENCE @ []) = Some b"
    using a e by (intro first_fenced_block_append) simp_all
  ultimately show "clean_llm_response (pre @ FENCE @ b @ FENCE @ post)
      = clean_llm_response (FENCE @ b @ FENCE)"
    by (simp add: clean_of_first_block)
next
  show "clean_llm_response (U ''```\<newline>{\"a\":1}\<newline>```'') = Inr (U ''{\"a\":1}'')"
    by code_simp
qed

theorem only_first_fenced_block_witness:
  "py_in FENCE (U ''See `x`: ```\<newline>a: 1\<newline>b: 2\<newline>``` and ```js\<newline>f()```'') \<and>
   \<not> py_in FENCE (U ''See `x`: '' @ U ''``'') \<and> \<not> py_in FENCE (U ''\<newline>a: 1\<newline>b: 2\<newline>'' @ U ''``'') \<and>
   first_fenced_block (U ''See `x`: ```\<newline>a: 1\<newline>b: 2\<newline>``` and ```js\<newline>f()```'')
     = Some (U ''\<newline>a: 1\<newline>b: 2\<newline>'') \<and>
   py_strip (U ''a: 1'') \<notin> set LANGS \<and>
   clean_llm_response (U ''See `x`: ```\<newline>a: 1\<newline>b: 2\<newline>``` and ```js\<newline>f()```'')
     = Inr (U ''a: 1\<newline>b: 2'') \<and>
   clean_llm_response (U ''```\<newline>a: 1\<newline>b: 2\<newline>```'') = Inr (U ''a: 1\<newline>b: 2'')"
proof -
  let ?pre = "U ''See `x`: ''"
  let ?b = "U ''\<newline>a: 1\<newline>b: 2\<newline>''"
  let ?post = "U '' and ```js\<newline>f()```''"
  let ?s = "U ''See `x`: ```\<newline>a: 1\<newline>b: 2\<newline>``` and ```js\<newline>f()```''"
  have s: "?s = ?pre @ FENCE @ ?b @ FENCE @ ?post" by (simp add: FENCE_def)
  have s': "U ''```\<newline>a: 1\<newline>b: 2\<newline>```'' = FENCE @ ?b @ FENCE" by (simp add: FENCE_def)
  have h: "py_in FENCE ?s" by code_simp
  have h1: "\<not> py_in FENCE (?pre @ U ''``'')" by code_simp
  have h2: "\<not> py_in FENCE (?b @ U ''``'')" by code_simp
  have sp: "split_at NL (py_strip ?b) = [U ''a: 1'', U ''b: 2'']" by code_simp
  have tag: "py_strip (U ''a: 1'') \<notin> set LANGS" by code_simp
  have st: "py_strip ?b = U ''a: 1\<newline>b: 2''" by code_simp
  note t = only_first_fenced_block[of ?s ?pre ?b ?post]
  from t h1 h2 have fb: "first_fenced_block ?s = Some ?b"
    and eq: "clean_llm_response ?s = clean_llm_response (FENCE @ ?b @ FENCE)"
    unfolding s by blast+
  from t h obtain blk r l0 ls where
    o: "first_fenced_block ?s = Some blk" "clean_llm_response ?s = Inr r"
       "split_at NL (py_strip blk) = l0 # ls" "py_strip l0 \<notin> set LANGS \<longrightarrow> r = py_strip blk"
    by blast
  from o(1) fb have "blk = ?b" by simp
  with o(3) sp have "l0 = U ''a: 1''" by simp
  with o(4) tag \<open>blk = ?b\<close> st have "r = U ''a: 1\<newline>b: 2''" by simp
  with o(2) have c: "clean_llm_response ?s = Inr (U ''a: 1\<newline>b: 2'')" by simp
  with eq have "clean_llm_response (FENCE @ ?b @ FENCE) = Inr (U ''a: 1\<newline>b: 2'')" by simp
  then have c': "clean_llm_response (U ''```\<newline>a: 1\<newline>b: 2\<newline>```'') = Inr (U ''a: 1\<newline>b: 2'')"
    unfolding s' .
  from h h1 h2 fb tag c c' show ?thesis by blast
qed

section \<open>Facts about the classifier\<close>

lemma py_lower_Cons:
  "py_lower db (c # cs) =
     lower_ucs4 db (c # cs) 0 @ concat (map (lower_ucs4 db (c # cs)) [1..<Suc (length cs)])"
proof -
  have "[0..<length (c # cs)] = 0 # [1..<Suc (length cs)]"
    by (simp add: upt_conv_Cons del: upt_Suc)
  then show ?thesis by (simp add: py_lower_def del: upt_Suc)
qed

lemma py_lower_Nil: "py_lower db [] = []"
  by (simp add: py_lower_def)

lemma ascii_lower_fixed: "c < 0x41 \<or> 0x5A < c \<Longrightarrow> ascii_lower c = c"
  by (auto simp: ascii_lower_def)

lemma py_lower_head_ascii:
  "c < 0x80 \<Longrightarrow> \<exists>rest. py_lower db (c # cs) = ascii_lower c # rest"
  by (simp add: py_lower_Cons lower_ucs4_def)

lemma detect_first_match:
  "first_match (classification_rules db) s = Some (detect_content_type db s)"
  by (simp add: classification_rules_def detect_content_type_def Let_def
      is_html_def is_json_def is_js_def is_css_def)

lemma json_start:
  assumes "prefix [c] (py_strip s)" "c = 0x7B \<or> c = 0x5B"
  shows "prefix [c] (py_lower db (py_strip s))"
    and "\<not> prefix (U ''<!doctype html'') (py_lower db (py_strip s))"
    and "\<not> prefix (U ''<html'') (py_lower db (py_strip s))"
proof -
  from assms(1) obtain cs where t: "py_strip s = c # cs" by (auto simp: prefix_def)
  from assms(2) have "c < 0x80" by auto
  from py_lower_head_ascii[OF this, of db cs] obtain rest where
    "py_lower db (c # cs) = ascii_lower c # rest" by blast
  moreover from assms(2) have "ascii_lower c = c" by (auto simp: ascii_lower_def)
  ultimately have l: "py_lower db (py_strip s) = c # rest" using t by simp
  show "prefix [c] (py_lower db (py_strip s))" by (simp add: l)
  show "\<not> prefix (U ''<!doctype html'') (py_lower db (py_strip s))"
    using assms(2) by (auto simp: l)
  show "\<not> prefix (U ''<html'') (py_lower db (py_strip s))"
    using assms(2) by (auto simp: l)
qed

lemma at_start:
  assumes "\<And>t i. 0x80 \<le> t ! i \<Longrightarrow> db t i \<noteq> [] \<and> \<not> prefix (U ''@'') (db t i)"
  shows "prefix (U ''@'') (py_lower db t) \<longleftrightarrow> prefix (U ''@'') t"
proof (cases t)
  case Nil
  then show ?thesis by (simp add: py_lower_Nil)
next
  case (Cons c cs)
  show ?thesis
  proof (cases "c < 0x80")
    case True
    then have "py_lower db t = ascii_lower c # concat (map (lower_ucs4 db t) [1..<Suc (length cs)])"
      using Cons by (simp add: py_lower_Cons lower_ucs4_def)
    moreover have "ascii_lower c = 0x40 \<longleftrightarrow> c = 0x40" by (auto simp: ascii_lower_def)
    ultimately show ?thesis using Cons by simp
  next
    case False
    then have ge: "0x80 \<le> t ! 0" using Cons by simp
    from assms[OF ge] obtain d ds where d: "db t 0 = d # ds" "d \<noteq> 0x40"
      by (cases "db t 0") auto
    from False Cons have "py_lower db t = db t 0 @ concat (map (lower_ucs4 db t) [1..<Suc (length cs)])"
      by (simp add: py_lower_Cons lower_ucs4_def)
    with d False Cons show ?thesis by auto
  qed
qed

lemma ex_css: "detect_content_type db (U ''@media screen { color: red; }'') = (U ''text/css'', U ''css'')"
  by (simp add: detect_content_type_def py_strip_def isspace_def py_lower_def lower_ucs4_def ascii_lower_def upt_rec)

lemma ex_text: "detect_content_type db (U ''hello world'') = (U ''text/plain'', U ''text'')"
  by (simp add: detect_content_type_def py_strip_def isspace_def py_lower_def lower_ucs4_def ascii_lower_def upt_rec)

section \<open>The classifier: what the specification claims\<close>

text \<open>
  C2. A text that, once trimmed, starts with \<open>{\<close> or \<open>[\<close> is classified as
  \<open>application/json\<close> with tag \<open>json\<close>, whatever else it contains: nothing is assumed
  about the words \<open>function\<close>, \<open>const\<close> or \<open>var\<close>, because the JSON test comes before
  the JavaScript test. In general the classifier returns the result of the first of the
  five rules, taken in their order, that matches.
\<close>

theorem json_before_javascript:
  "(prefix (U ''{'') (py_strip s) \<or> prefix (U ''['') (py_strip s) \<longrightarrow>
      detect_content_type db s = (U ''application/json'', U ''json'')) \<and>
   first_match (classification_rules db) s = Some (detect_content_type db s)"
proof (intro conjI impI)
  assume "prefix (U ''{'') (py_strip s) \<or> prefix (U ''['') (py_strip s)"
  then obtain c where c: "prefix [c] (py_strip s)" "c = 0x7B \<or> c = 0x5B" by auto
  from json_start[OF c, of db] c(2)
  show "detect_content_type db s = (U ''application/json'', U ''json'')"
    by (auto simp: detect_content_type_def Let_def)
next
  show "first_match (classification_rules db) s = Some (detect_content_type db s)"
    by (rule detect_first_match)
qed

theorem json_before_javascript_witness:
  "prefix (U ''{'') (py_strip (U '' {\"f\": \"function () { const a; var b; }\"}'')) \<and>
   is_js (\<lambda>t i. [t ! i]) (U '' {\"f\": \"function () { const a; var b; }\"}'') \<and>
   detect_content_type (\<lambda>t i. [t ! i]) (U '' {\"f\": \"function () { const a; var b; }\"}'')
     = (U ''application/json'', U ''json'') \<and>
   first_match (classification_rules (\<lambda>t i. [t ! i])) (U '' {\"f\": \"function () { const a; var b; }\"}'')
     = Some (U ''application/json'', U ''json'')"
proof -
  let ?s = "U '' {\"f\": \"function () { const a; var b; }\"}''"
  let ?db = "\<lambda>(t::ustr) (i::nat). [t ! i]"
  have h: "prefix (U ''{'') (py_strip ?s)" by code_simp
  have js: "is_js ?db ?s" by code_simp
  note t = json_before_javascript[of ?s ?db]
  from t h have d: "detect_content_type ?db ?s = (U ''application/json'', U ''json'')" by blast
  with t have "first_match (classification_rules ?db) ?s = Some (U ''application/json'', U ''json'')"
    by simp
  with h js d show ?thesis by blast
qed

text \<open>
  C6. When none of the HTML, JSON and JavaScript rules matches, the result is \<open>text/css\<close>
  with tag \<open>css\<close> exactly when the trimmed, lower-cased text starts with \<open>@\<close> or the text
  contains \<open>{\<close>, \<open>:\<close> and \<open>;\<close>, and \<open>text/plain\<close> with tag \<open>text\<close> otherwise. The test
  for \<open>@\<close> can be read on the trimmed text itself as soon as the Unicode database maps no
  code point above ASCII to nothing or to a text starting with \<open>@\<close>. The two examples of
  the specification are the last conjuncts.
\<close>

theorem css_or_plain_text:
  "(\<not> is_html db s \<and> \<not> is_json db s \<and> \<not> is_js db s \<longrightarrow>
      detect_content_type db s =
        (if prefix (U ''@'') (py_lower db (py_strip s))
            \<or> (py_in (U ''{'') s \<and> py_in (U '':'') s \<and> py_in (U '';'') s)
         then (U ''text/css'', U ''css'') else (U ''text/plain'', U ''text''))) \<and>
   ((\<forall>t i. 0x80 \<le> t ! i \<longrightarrow> db t i \<noteq> [] \<and> \<not> prefix (U ''@'') (db t i)) \<longrightarrow>
      (prefix (U ''@'') (py_lower db (py_strip s)) \<longleftrightarrow> prefix (U ''@'') (py_strip s))) \<and>
   detect_content_type db (U ''@media screen { color: red; }'') = (U ''text/css'', U ''css'') \<and>
   detect_content_type db (U ''hello world'') = (U ''text/plain'', U ''text'')"
proof (intro conjI impI)
  assume "\<not> is_html db s \<and> \<not> is_json db s \<and> \<not> is_js db s"
  then show "detect_content_type db s =
        (if prefix (U ''@'') (py_lower db (py_strip s))
            \<or> (py_in (U ''{'') s \<and> py_in (U '':'') s \<and> py_in (U '';'') s)
         then (U ''text/css'', U ''css'') else (U ''text/plain'', U ''text''))"
    by (simp add: detect_content_type_def Let_def is_html_def is_json_def is_js_def)
next
  assume "\<forall>t i. 0x80 \<le> t ! i \<longrightarrow> db t i \<noteq> [] \<and> \<not> prefix (U ''@'') (db t i)"
  then show "prefix (U ''@'') (py_lower db (py_strip s)) \<longleftrightarrow> prefix (U ''@'') (py_strip s)"
    by (intro at_start) blast
next
  show "detect_content_type db (U ''@media screen { color: red; }'') = (U ''text/css'', U ''css'')"
    by (rule ex_css)
next
  show "detect_content_type db (U ''hello world'') = (U ''text/plain'', U ''text'')"
    by (rule ex_text)
qed

theorem css_or_plain_text_witness:
  "\<not> is_html (\<lambda>t i. [t ! i]) (U '' a { color: red; }'') \<and>
   \<not> is_json (\<lambda>t i. [t ! i]) (U '' a { color: red; }'') \<and>
   \<not> is_js (\<lambda>t i. [t ! i]) (U '' a { color: red; }'') \<and>
   \<not> prefix (U ''@'') (py_strip (U '' a { color: red; }'')) \<and>
   \<not> prefix (U ''@'') (py_lower (\<lambda>t i. [t ! i]) (py_strip (U '' a { color: red; }''))) \<and>
   py_in (U ''{'') (U '' a { color: red; }'') \<and> py_in (U '':'') (U '' a { color: red; }'') \<and>
   py_in (U '';'') (U '' a { color: red; }'') \<and>
   detect_content_type (\<lambda>t i. [t ! i]) (U '' a { color: red; }'') = (U ''text/css'', U ''css'')"
proof -
  let ?s = "U '' a { color: red; }''"
  let ?db = "\<lambda>(t::ustr) (i::nat). [t ! i]"
  have h: "\<not> is_html ?db ?s \<and> \<not> is_json ?db ?s \<and> \<not> is_js ?db ?s" by code_simp
  have d: "\<forall>t i. 0x80 \<le> t ! i \<longrightarrow> [t ! i] \<noteq> [] \<and> \<not> prefix (U ''@'') [t ! i]" by auto
  have a: "\<not> prefix (U ''@'') (py_strip ?s)" by code_simp
  have c: "py_in (U ''{'') ?s \<and> py_in (U '':'') ?s \<and> py_in (U '';'') ?s" by code_simp
  note t = css_or_plain_text[of ?db ?s]
  from t d a have l: "\<not> prefix (U ''@'') (py_lower ?db (py_strip ?s))" by blast
  with t h c have "detect_content_type ?db ?s = (U ''text/css'', U ''css'')" by simp
  with h a l c show ?thesis by blast
qed

section \<open>Facts about the handler\<close>

lemma clean_total: "\<exists>r. clean_llm_response s = Inr r"
  using clean_no_fence[of s] clean_result_fence_free[of s] by (cases "py_in FENCE s") auto

lemma generate_response_ok:
  assumes "generate_text E p TEMPERATURE = Inr out"
  shows "\<exists>cleaned. clean_llm_response out = Inr cleaned \<and>
           generate_response E p =
             Inr \<lparr>content = cleaned,
                  media_type = fst (detect_content_type (lower_db E) cleaned),
                  status_code = 200\<rparr>"
proof -
  from clean_total[of out] obtain cleaned where "clean_llm_response out = Inr cleaned" by blast
  with assms show ?thesis
    by (simp add: generate_response_def split: prod.splits)
qed

lemma generate_response_raises:
  "generate_text E p TEMPERATURE = Inl e \<Longrightarrow> generate_response E p = Inl e"
  by (simp add: generate_response_def)

lemma error_html_contains:
  "sublist (U ''/'' @ path) (error_html path e)" "sublist (str_exn e) (error_html path e)"
proof -
  have "error_html path e
      = ERROR_PAGE_HEAD @ (U ''/'' @ path) @ (ERROR_PAGE_MIDDLE @ str_exn e @ ERROR_PAGE_FOOT)"
    by (simp add: error_html_def)
  then show "sublist (U ''/'' @ path) (error_html path e)"
    by (metis sublist_appendI)
  have "error_html path e
      = (ERROR_PAGE_HEAD @ U ''/'' @ path @ ERROR_PAGE_MIDDLE) @ str_exn e @ ERROR_PAGE_FOOT"
    by (simp add: error_html_def)
  then show "sublist (str_exn e) (error_html path e)"
    by (metis sublist_appendI)
qed

lemma catch_all_behaviour:
  "catch_all E r =
     (case extract_body E r of
        Inl e \<Rightarrow> Inl e
      | Inr body \<Rightarrow>
          (case generate_text E (build_prompt E (http_method r) (full_path r) (py_dict (query_params r)) body)
                  TEMPERATURE of
             Inr text \<Rightarrow>
               (case clean_llm_response text of
                  Inr cleaned \<Rightarrow>
                    Inr \<lparr>content = cleaned,
                         media_type = fst (detect_content_type (lower_db E) cleaned),
                         status_code = 200\<rparr>
                | Inl e \<Rightarrow>
                    Inr \<lparr>content = error_html (full_path r) e, media_type = U ''text/html'',
                         status_code = 500\<rparr>)
           | Inl e \<Rightarrow>
               Inr \<lparr>content = error_html (full_path r) e, media_type = U ''text/html'',
                    status_code = 500\<rparr>))"
  by (simp add: catch_all_def request_prompt_def generate_response_def
      split: sum.splits prod.splits)

lemma catch_all_responds:
  assumes "extract_body E r = Inr body"
  shows "(\<forall>out. generate_text E
             (build_prompt E (http_method r) (full_path r) (py_dict (query_params r)) body)
             TEMPERATURE = Inr out \<longrightarrow>
           (\<exists>cleaned. clean_llm_response out = Inr cleaned \<and>
              catch_all E r =
                Inr \<lparr>content = cleaned,
                     media_type = fst (detect_content_type (lower_db E) cleaned),
                     status_code = 200\<rparr>)) \<and>
         (\<forall>e. generate_text E
             (build_prompt E (http_method r) (full_path r) (py_dict (query_params r)) body)
             TEMPERATURE = Inl e \<longrightarrow>
           catch_all E r =
             Inr \<lparr>content = error_html (full_path r) e, media_type = U ''text/html'',
                  status_code = 500\<rparr> \<and>
           sublist (U ''/'' @ full_path r) (error_html (full_path r) e) \<and>
           sublist (str_exn e) (error_html (full_path r) e))"
proof (intro conjI allI impI)
  fix out
  assume g: "generate_text E
      (build_prompt E (http_method r) (full_path r) (py_dict (query_params r)) body)
      TEMPERATURE = Inr out"
  from clean_total[of out] obtain cleaned where c: "clean_llm_response out = Inr cleaned"
    by blast
  with assms g have "catch_all E r =
      Inr \<lparr>content = cleaned, media_type = fst (detect_content_type (lower_db E) cleaned),
           status_code = 200\<rparr>"
    by (simp add: catch_all_behaviour)
  with c show "\<exists>cleaned. clean_llm_response out = Inr cleaned \<and>
      catch_all E r =
        Inr \<lparr>content = cleaned, media_type = fst (detect_content_type (lower_db E) cleaned),
             status_code = 200\<rparr>"
    by blast
next
  fix e
  assume "generate_text E
      (build_prompt E (http_method r) (full_path r) (py_dict (query_params r)) body)
      TEMPERATURE = Inl e"
  with assms show "catch_all E r =
      Inr \<lparr>content = error_html (full_path r) e, media_type = U ''text/html'',
           status_code = 500\<rparr>"
    by (simp add: catch_all_behaviour)
next
  fix e
  show "sublist (U ''/'' @ full_path r) (error_html (full_path r) e)"
    by (rule error_html_contains)
next
  fix e
  show "sublist (str_exn e) (error_html (full_path r) e)"
    by (rule error_html_contains)
qed

lemma extract_body_raises_iff:
  "extract_body E r = Inl UnicodeDecodeError \<longleftrightarrow>
     http_method r \<in> set [U ''POST'', U ''PUT'', U ''PATCH''] \<and> json_loads E (raw_body r) = None \<and>
     utf8_decode (raw_body r) = Inl UnicodeDecodeError"
proof -
  have "\<And>e. e = UnicodeDecodeError" by (rule propagated.exhaust) simp
  then show ?thesis
    by (cases "raw_body r = []") (auto simp: extract_body_def split: option.splits sum.splits)
qed

lemma build_prompt_falsy:
  "\<not> truthy body \<Longrightarrow> build_prompt E m path params body = build_prompt E m path params JNull"
  by (simp add: build_prompt_def)

section \<open>The handler: what the specification claims\<close>

text \<open>
  C5. The claim is that body extraction never raises. It does: when the body of a POST, PUT
  or PATCH request is not parsed by the JSON parser and is not valid UTF-8, the fallback
  \<open>body.decode()\<close> raises \<open>UnicodeDecodeError\<close>, outside any \<open>try\<close>. Here a PUT request
  with the two bytes C3 28, for any parser that rejects them.
\<close>

theorem extract_body_undecodable:
  "json_loads E [0xC3, 0x28] = None \<Longrightarrow>
   extract_body E \<lparr>http_method = U ''PUT'', full_path = U ''notes/1'', query_params = [],
                   raw_body = [0xC3, 0x28]\<rparr> = Inl UnicodeDecodeError"
  by (simp add: extract_body_def continuation_def)

theorem extract_body_undecodable_witness:
  "json_loads \<lparr>lower_db = (\<lambda>t i. [t ! i]), json_loads = (\<lambda>bs. None),
               json_dumps = (\<lambda>v. U ''null''), generate_text = (\<lambda>p t. Inr p)\<rparr> [0xC3, 0x28] = None \<and>
   extract_body \<lparr>lower_db = (\<lambda>t i. [t ! i]), json_loads = (\<lambda>bs. None),
                 json_dumps = (\<lambda>v. U ''null''), generate_text = (\<lambda>p t. Inr p)\<rparr>
     \<lparr>http_method = U ''PUT'', full_path = U ''notes/1'', query_params = [],
      raw_body = [0xC3, 0x28]\<rparr> = Inl UnicodeDecodeError"
proof -
  let ?E = "\<lparr>lower_db = (\<lambda>(t::ustr) (i::nat). [t ! i]), json_loads = (\<lambda>bs. None),
             json_dumps = (\<lambda>v. U ''null''), generate_text = (\<lambda>p t. Inr p)\<rparr>"
  have h: "json_loads ?E [0xC3, 0x28] = None" by simp
  from extract_body_undecodable[OF h] h show ?thesis by blast
qed

text \<open>
  C1. The claim is that the handler returns one response for every request. For a POST
  request whose body is the byte FF, which no JSON parser accepts and which is not valid
  UTF-8, the handler returns no response: the exception of body extraction leaves it before
  the model is called. (For every request whose body is extracted, \<open>catch_all_responds\<close>
  gives the response: status 200 with the sanitized text and the classifier's MIME type
  when the model call succeeds, the error page with status 500 when it raises.)
\<close>

theorem catch_all_undecodable:
  "json_loads E [0xFF] = None \<Longrightarrow>
   catch_all E \<lparr>http_method = U ''POST'', full_path = U ''api/items'', query_params = [],
                raw_body = [0xFF]\<rparr> = Inl UnicodeDecodeError"
  by (simp add: catch_all_def request_prompt_def extract_body_def)

theorem catch_all_undecodable_witness:
  "json_loads \<lparr>lower_db = (\<lambda>t i. [t ! i]), json_loads = (\<lambda>bs. None),
               json_dumps = (\<lambda>v. U ''null''), generate_text = (\<lambda>p t. Inr p)\<rparr> [0xFF] = None \<and>
   catch_all \<lparr>lower_db = (\<lambda>t i. [t ! i]), json_loads = (\<lambda>bs. None),
              json_dumps = (\<lambda>v. U ''null''), generate_text = (\<lambda>p t. Inr p)\<rparr>
     \<lparr>http_method = U ''POST'', full_path = U ''api/items'', query_params = [],
      raw_body = [0xFF]\<rparr> = Inl UnicodeDecodeError"
proof -
  let ?E = "\<lparr>lower_db = (\<lambda>(t::ustr) (i::nat). [t ! i]), json_loads = (\<lambda>bs. None),
             json_dumps = (\<lambda>v. U ''null''), generate_text = (\<lambda>p t. Inr p)\<rparr>"
  have h: "json_loads ?E [0xFF] = None" by simp
  from catch_all_undecodable[OF h] h show ?thesis by blast
qed

text \<open>
  C8. For a GET request to \<open>/about\<close> without query parameters the handler builds a prompt
  that contains \<open>Method: GET\<close>, \<open>Path: /about\<close> and \<open>Query Parameters: None\<close>, whatever
  bytes the request carries. In general the prompt of a request without query parameters
  has \<open>None\<close> on its query-parameter line, and the prompt for an absent body has \<open>None\<close>
  on its body line.
\<close>

theorem about_prompt:
  "(\<exists>p. request_prompt E \<lparr>http_method = U ''GET'', full_path = U ''about'', query_params = [],
                           raw_body = bs\<rparr> = Inr p \<and>
        sublist (U ''Method: GET'') p \<and> sublist (U ''Path: /about'') p \<and>
        sublist (U ''Query Parameters: None'') p) \<and>
   build_prompt E m path (py_dict []) body =
     PROMPT_INTRO @ U ''- Method: '' @ m @ U ''\<newline>- Path: /'' @ path @
     U ''\<newline>- Query Parameters: None\<newline>- Request Body: '' @
     (if truthy body then json_dumps E body else U ''None'') @ PROMPT_INSTRUCTIONS \<and>
   build_prompt E m path params JNull =
     PROMPT_INTRO @ U ''- Method: '' @ m @ U ''\<newline>- Path: /'' @ path @
     U ''\<newline>- Query Parameters: '' @
     (if params \<noteq> [] then json_dumps E (JObj (map (\<lambda>(k, v). (k, JStr v)) params)) else U ''None'') @
     U ''\<newline>- Request Body: None'' @ PROMPT_INSTRUCTIONS"
proof (intro conjI)
  let ?r = "\<lparr>http_method = U ''GET'', full_path = U ''about'', query_params = [], raw_body = bs\<rparr>"
  let ?p = "build_prompt E (U ''GET'') (U ''about'') [] JNull"
  have rp: "request_prompt E ?r = Inr ?p"
    by (simp add: request_prompt_def extract_body_def py_dict_def)
  have "?p = (PROMPT_INTRO @ U ''- '') @ U ''Method: GET'' @
      (U ''\<newline>- Path: /about\<newline>- Query Parameters: None\<newline>- Request Body: None'' @ PROMPT_INSTRUCTIONS)"
    by (simp add: build_prompt_def)
  then have a: "sublist (U ''Method: GET'') ?p" by (metis sublist_appendI)
  have "?p = (PROMPT_INTRO @ U ''- Method: GET\<newline>- '') @ U ''Path: /about'' @
      (U ''\<newline>- Query Parameters: None\<newline>- Request Body: None'' @ PROMPT_INSTRUCTIONS)"
    by (simp add: build_prompt_def)
  then have b: "sublist (U ''Path: /about'') ?p" by (metis sublist_appendI)
  have "?p = (PROMPT_INTRO @ U ''- Method: GET\<newline>- Path: /about\<newline>- '') @ U ''Query Parameters: None'' @
      (U ''\<newline>- Request Body: None'' @ PROMPT_INSTRUCTIONS)"
    by (simp add: build_prompt_def)
  then have c: "sublist (U ''Query Parameters: None'') ?p" by (metis sublist_appendI)
  from rp a b c show "\<exists>p. request_prompt E ?r = Inr p \<and>
        sublist (U ''Method: GET'') p \<and> sublist (U ''Path: /about'') p \<and>
        sublist (U ''Query Parameters: None'') p" by blast
next
  show "build_prompt E m path (py_dict []) body =
     PROMPT_INTRO @ U ''- Method: '' @ m @ U ''\<newline>- Path: /'' @ path @
     U ''\<newline>- Query Parameters: None\<newline>- Request Body: '' @
     (if truthy body then json_dumps E body else U ''None'') @ PROMPT_INSTRUCTIONS"
    by (simp add: build_prompt_def py_dict_def)
next
  show "build_prompt E m path params JNull =
     PROMPT_INTRO @ U ''- Method: '' @ m @ U ''\<newline>- Path: /'' @ path @
     U ''\<newline>- Query Parameters: '' @
     (if params \<noteq> [] then json_dumps E (JObj (map (\<lambda>(k, v). (k, JStr v)) params)) else U ''None'') @
     U ''\<newline>- Request Body: None'' @ PROMPT_INSTRUCTIONS"
    by (simp add: build_prompt_def)
qed

theorem about_prompt_witness:
  "request_prompt \<lparr>lower_db = (\<lambda>t i. [t ! i]), json_loads = (\<lambda>bs. None),
                   json_dumps = (\<lambda>v. U ''null''), generate_text = (\<lambda>p t. Inr p)\<rparr>
     \<lparr>http_method = U ''GET'', full_path = U ''about'', query_params = [], raw_body = []\<rparr>
   = Inr (PROMPT_INTRO @
          U ''- Method: GET\<newline>- Path: /about\<newline>- Query Parameters: None\<newline>- Request Body: None'' @
          PROMPT_INSTRUCTIONS)"
proof -
  let ?E = "\<lparr>lower_db = (\<lambda>(t::ustr) (i::nat). [t ! i]), json_loads = (\<lambda>bs. None),
             json_dumps = (\<lambda>v. U ''null''), generate_text = (\<lambda>p t. Inr p)\<rparr>"
  let ?r = "\<lparr>http_method = U ''GET'', full_path = U ''about'', query_params = [], raw_body = []\<rparr>"
  from about_prompt[of ?E "[]" "U ''GET''" "U ''about''" JNull "[]"]
  have "build_prompt ?E (U ''GET'') (U ''about'') (py_dict []) JNull =
     PROMPT_INTRO @ U ''- Method: '' @ U ''GET'' @ U ''\<newline>- Path: /'' @ U ''about'' @
     U ''\<newline>- Query Parameters: None\<newline>- Request Body: '' @
     (if truthy JNull then json_dumps ?E JNull else U ''None'') @ PROMPT_INSTRUCTIONS"
    by blast
  then show ?thesis
    by (simp add: request_prompt_def extract_body_def)
qed

text \<open>
  C10. When the body of a POST, PUT or PATCH request parses to a value that Python takes
  as false, the prompt has \<open>None\<close> on its body line, and it is the prompt of the same
  request without any body bytes (for which the parser raises). The empty string, the
  empty object, the empty array, zero, false and null are such values.
\<close>

theorem falsy_body_rendered_as_none:
  "(http_method r \<in> set [U ''POST'', U ''PUT'', U ''PATCH''] \<and> json_loads E (raw_body r) = Some v \<and>
    \<not> truthy v \<longrightarrow>
      request_prompt E r =
        Inr (PROMPT_INTRO @ U ''- Method: '' @ http_method r @ U ''\<newline>- Path: /'' @ full_path r @
             U ''\<newline>- Query Parameters: '' @
             (if py_dict (query_params r) \<noteq> []
              then json_dumps E (JObj (map (\<lambda>(k, v). (k, JStr v)) (py_dict (query_params r))))
              else U ''None'') @
             U ''\<newline>- Request Body: None'' @ PROMPT_INSTRUCTIONS) \<and>
      (json_loads E [] = None \<longrightarrow> request_prompt E r = request_prompt E (r\<lparr>raw_body := []\<rparr>))) \<and>
   \<not> truthy (JStr []) \<and> \<not> truthy (JObj []) \<and> \<not> truthy (JArr []) \<and> \<not> truthy (JInt 0) \<and>
   \<not> truthy (JBool False) \<and> \<not> truthy JNull"
proof (intro conjI impI)
  assume a: "http_method r \<in> set [U ''POST'', U ''PUT'', U ''PATCH''] \<and>
    json_loads E (raw_body r) = Some v \<and> \<not> truthy v"
  then have eb: "extract_body E r = Inr v" by (simp add: extract_body_def)
  from a have bp: "build_prompt E (http_method r) (full_path r) (py_dict (query_params r)) v
      = build_prompt E (http_method r) (full_path r) (py_dict (query_params r)) JNull"
    by (intro build_prompt_falsy) simp
  from eb bp show "request_prompt E r =
        Inr (PROMPT_INTRO @ U ''- Method: '' @ http_method r @ U ''\<newline>- Path: /'' @ full_path r @
             U ''\<newline>- Query Parameters: '' @
             (if py_dict (query_params r) \<noteq> []
              then json_dumps E (JObj (map (\<lambda>(k, v). (k, JStr v)) (py_dict (query_params r))))
              else U ''None'') @
             U ''\<newline>- Request Body: None'' @ PROMPT_INSTRUCTIONS)"
    by (simp add: request_prompt_def build_prompt_def)
  assume n: "json_loads E [] = None"
  from a n have "extract_body E (r\<lparr>raw_body := []\<rparr>) = Inr JNull"
    by (simp add: extract_body_def)
  with eb bp show "request_prompt E r = request_prompt E (r\<lparr>raw_body := []\<rparr>)"
    by (simp add: request_prompt_def)
qed simp_all

theorem falsy_body_rendered_as_none_witness:
  "http_method \<lparr>http_method = U ''POST'', full_path = U ''api/items'', query_params = [],
           raw_body = [0x7B, 0x7D]\<rparr> \<in> set [U ''POST'', U ''PUT'', U ''PATCH''] \<and>
   json_loads \<lparr>lower_db = (\<lambda>t i. [t ! i]),
               json_loads = (\<lambda>bs. if bs = [0x7B, 0x7D] then Some (JObj []) else None),
               json_dumps = (\<lambda>v. U ''null''), generate_text = (\<lambda>p t. Inr p)\<rparr>
     (raw_body \<lparr>http_method = U ''POST'', full_path = U ''api/items'', query_params = [],
                raw_body = [0x7B, 0x7D]\<rparr>) = Some (JObj []) \<and>
   \<not> truthy (JObj []) \<and>
   request_prompt \<lparr>lower_db = (\<lambda>t i. [t ! i]),
               json_loads = (\<lambda>bs. if bs = [0x7B, 0x7D] then Some (JObj []) else None),
               json_dumps = (\<lambda>v. U ''null''), generate_text = (\<lambda>p t. Inr p)\<rparr>
     \<lparr>http_method = U ''POST'', full_path = U ''api/items'', query_params = [],
      raw_body = [0x7B, 0x7D]\<rparr>
   = Inr (PROMPT_INTRO @
          U ''- Method: POST\<newline>- Path: /api/items\<newline>- Query Parameters: None\<newline>- Request Body: None'' @
          PROMPT_INSTRUCTIONS)"
proof -
  let ?E = "\<lparr>lower_db = (\<lambda>(t::ustr) (i::nat). [t ! i]),
             json_loads = (\<lambda>bs. if bs = [0x7B, 0x7D] then Some (JObj []) else None),
             json_dumps = (\<lambda>v. U ''null''), generate_text = (\<lambda>p t. Inr p)\<rparr>"
  let ?r = "\<lparr>http_method = U ''POST'', full_path = U ''api/items'', query_params = [],
             raw_body = [0x7B, 0x7D]\<rparr>"
  have h1: "http_method ?r \<in> set [U ''POST'', U ''PUT'', U ''PATCH'']" by simp
  have h2: "json_loads ?E (raw_body ?r) = Some (JObj [])" by simp
  have h3: "\<not> truthy (JObj [])" by simp
  from falsy_body_rendered_as_none[of ?r ?E "JObj []"] h1 h2 h3
  have "request_prompt ?E ?r =
        Inr (PROMPT_INTRO @ U ''- Method: '' @ http_method ?r @ U ''\<newline>- Path: /'' @ full_path ?r @
             U ''\<newline>- Query Parameters: '' @
             (if py_dict (query_params ?r) \<noteq> []
              then json_dumps ?E (JObj (map (\<lambda>(k, v). (k, JStr v)) (py_dict (query_params ?r))))
              else U ''None'') @
             U ''\<newline>- Request Body: None'' @ PROMPT_INSTRUCTIONS)"
    by blast
  then have "request_prompt ?E ?r
   = Inr (PROMPT_INTRO @
          U ''- Method: POST\<newline>- Path: /api/items\<newline>- Query Parameters: None\<newline>- Request Body: None'' @
          PROMPT_INSTRUCTIONS)"
    by (simp add: py_dict_def)
  with h1 h2 h3 show ?thesis by blast
qed

end
